theory Spec2Isabelle
  imports Main
begin

section \<open>Go values and outcomes\<close>

text \<open>
  A Go call either returns or panics. Every function of the two services is modelled
  with the result type \<open>'a go\<close>, so that a failed type assertion is a value of the model.
\<close>

datatype 'a go = Panic string | Return 'a

text \<open>
  A decoded JSON value, as \<open>encoding/json\<close> hands it to a \<open>map[string]interface{}\<close>.
  Numbers are the Unix timestamps of the claims, which are whole seconds.
\<close>

datatype json = JString string | JNumber int | JBool bool | JNull

text \<open>
  The type assertion \<open>m[k].(string)\<close> on the result of indexing a
  \<open>map[string]interface{}\<close>: a missing key gives the nil interface, and the assertion
  panics on everything that is not a string.
\<close>

fun assert_string :: "json option \<Rightarrow> string go" where
  "assert_string (Some (JString s)) = Return s"
| "assert_string _ = Panic ''interface conversion: interface {} is not string''"

section \<open>The JWT library (github.com/golang-jwt/jwt/v4)\<close>

text \<open>
  The library is not part of the repository; the services call \<open>jwt.New\<close>,
  \<open>SignedString\<close> and \<open>jwt.Parse\<close>. Its cryptography is modelled symbolically: a MAC is
  the term \<open>HMAC alg key input\<close>, equal to another signature only if algorithm, key and
  signed text are the same. A token string is either text that does not split into three
  decodable segments, or the three segments in decoded form. The header and the claims are
  kept as the ordered list of members of the JSON object, which is what is signed.
\<close>

type_synonym MapClaims = "(string \<times> json) list"

text \<open>
  Indexing the Go map that \<open>encoding/json\<close> decodes such an object into: where a key
  occurs more than once, the last member is the one the map holds.
\<close>

definition lookup :: "(string \<times> json) list \<Rightarrow> string \<Rightarrow> json option" where
  "lookup m k = map_of (rev m) k"

datatype signature = HMAC string string "(string \<times> json) list \<times> MapClaims" | Bytes string

datatype tokenString =
    Garbage string
  | Compact "(string \<times> json) list" MapClaims signature

datatype SigningMethod =
    SigningMethodHMAC string
  | SigningMethodRSA string
  | SigningMethodRSAPSS string
  | SigningMethodECDSA string
  | SigningMethodEd25519
  | SigningMethodNone

text \<open>The bits of \<open>ValidationError.Errors\<close>, kept as a set of flags.\<close>

datatype ValidationErrorFlag =
    ValidationErrorMalformed
  | ValidationErrorUnverifiable
  | ValidationErrorSignatureInvalid
  | ValidationErrorExpired
  | ValidationErrorIssuedAt
  | ValidationErrorNotValidYet

text \<open>
  A Go \<open>error\<close> value: the library's \<open>*ValidationError\<close>, or the result of \<open>fmt.Errorf\<close>
  with its message. \<open>InvalidSpec\<close> is the failure kind that the specification names for
  the provisioning pipeline.
\<close>

datatype error =
    ValidationError "ValidationErrorFlag set"
  | Errorf string
  | InvalidSpec

record Token =
  Token_Method :: SigningMethod
  Token_Header :: "(string \<times> json) list"
  Token_Claims :: MapClaims
  Token_Signature :: signature
  Token_Valid :: bool

text \<open>\<open>jwt.GetSigningMethod\<close>: the registry of algorithm names.\<close>

definition GetSigningMethod :: "string \<Rightarrow> SigningMethod option" where
  "GetSigningMethod alg =
     (if alg \<in> {''HS256'', ''HS384'', ''HS512''} then Some (SigningMethodHMAC alg)
      else if alg \<in> {''RS256'', ''RS384'', ''RS512''} then Some (SigningMethodRSA alg)
      else if alg \<in> {''PS256'', ''PS384'', ''PS512''} then Some (SigningMethodRSAPSS alg)
      else if alg \<in> {''ES256'', ''ES384'', ''ES512''} then Some (SigningMethodECDSA alg)
      else if alg = ''EdDSA'' then Some SigningMethodEd25519
      else if alg = ''none'' then Some SigningMethodNone
      else None)"

text \<open>
  \<open>Parser.ParseUnverified\<close>: split and decode the segments, then look the \<open>alg\<close> header
  up. The token it returns is not yet valid.
\<close>

definition ParseUnverified :: "tokenString \<Rightarrow> error + Token" where
  "ParseUnverified tokenString =
     (case tokenString of
        Garbage _ \<Rightarrow> Inl (ValidationError {ValidationErrorMalformed})
      | Compact header claims sig \<Rightarrow>
          (case lookup header ''alg'' of
             Some (JString alg) \<Rightarrow>
               (case GetSigningMethod alg of
                  None \<Rightarrow> Inl (ValidationError {ValidationErrorUnverifiable})
                | Some m \<Rightarrow>
                    Inr \<lparr>Token_Method = m, Token_Header = header, Token_Claims = claims,
                         Token_Signature = sig, Token_Valid = False\<rparr>)
           | _ \<Rightarrow> Inl (ValidationError {ValidationErrorUnverifiable})))"

text \<open>
  \<open>MapClaims.VerifyExpiresAt\<close>, \<open>VerifyIssuedAt\<close> and \<open>VerifyNotBefore\<close>, each called
  with \<open>req = false\<close>: an absent claim passes, a claim that is not a number fails, the
  number 0 counts as absent.
\<close>

definition VerifyExpiresAt :: "MapClaims \<Rightarrow> int \<Rightarrow> bool" where
  "VerifyExpiresAt m cmp =
     (case lookup m ''exp'' of
        None \<Rightarrow> True
      | Some (JNumber exp) \<Rightarrow> (if exp = 0 then True else cmp < exp)
      | Some _ \<Rightarrow> False)"

definition VerifyIssuedAt :: "MapClaims \<Rightarrow> int \<Rightarrow> bool" where
  "VerifyIssuedAt m cmp =
     (case lookup m ''iat'' of
        None \<Rightarrow> True
      | Some (JNumber iat) \<Rightarrow> (if iat = 0 then True else iat \<le> cmp)
      | Some _ \<Rightarrow> False)"

definition VerifyNotBefore :: "MapClaims \<Rightarrow> int \<Rightarrow> bool" where
  "VerifyNotBefore m cmp =
     (case lookup m ''nbf'' of
        None \<Rightarrow> True
      | Some (JNumber nbf) \<Rightarrow> (if nbf = 0 then True else nbf \<le> cmp)
      | Some _ \<Rightarrow> False)"

text \<open>\<open>MapClaims.Valid\<close>, with the clock reading \<open>now\<close>: the flags of the failed checks.\<close>

definition MapClaims_Valid :: "MapClaims \<Rightarrow> int \<Rightarrow> ValidationErrorFlag set" where
  "MapClaims_Valid m now =
     (if \<not> VerifyExpiresAt m now then {ValidationErrorExpired} else {}) \<union>
     (if \<not> VerifyIssuedAt m now then {ValidationErrorIssuedAt} else {}) \<union>
     (if \<not> VerifyNotBefore m now then {ValidationErrorNotValidYet} else {})"

text \<open>
  \<open>SigningMethod.Verify\<close> with a \<open>[]byte\<close> key. Only the HMAC methods accept such a
  key; the signature must be the MAC of the two signed segments under it.
\<close>

fun Method_Verify :: "SigningMethod \<Rightarrow> (string \<times> json) list \<times> MapClaims \<Rightarrow> signature \<Rightarrow> string \<Rightarrow> bool" where
  "Method_Verify (SigningMethodHMAC alg) signingString sig key = (sig = HMAC alg key signingString)"
| "Method_Verify _ signingString sig key = False"

text \<open>
  \<open>jwt.Parse\<close> at clock reading \<open>now\<close>: decode, ask the key function for the key,
  verify the signature, validate the claims. The parsed token is returned with
  \<open>Valid = true\<close> exactly when there is no error; the callers read it only then.
\<close>

definition Parse :: "tokenString \<Rightarrow> (Token \<Rightarrow> error + string) \<Rightarrow> int \<Rightarrow> error + Token" where
  "Parse tokenString keyFunc now =
     (case ParseUnverified tokenString of
        Inl err \<Rightarrow> Inl err
      | Inr token \<Rightarrow>
          (case keyFunc token of
             Inl err \<Rightarrow> Inl (ValidationError {ValidationErrorUnverifiable})
           | Inr key \<Rightarrow>
               if \<not> Method_Verify (Token_Method token) (Token_Header token, Token_Claims token)
                      (Token_Signature token) key
               then Inl (ValidationError {ValidationErrorSignatureInvalid})
               else if MapClaims_Valid (Token_Claims token) now \<noteq> {}
               then Inl (ValidationError (MapClaims_Valid (Token_Claims token) now))
               else Inr (token\<lparr>Token_Valid := True\<rparr>)))"

text \<open>
  \<open>jwt.New(jwt.SigningMethodHS256)\<close> followed by \<open>SignedString\<close> with a \<open>[]byte\<close>
  key. \<open>json.Marshal\<close> writes the members of a map in the order of their keys, which is
  the order the callers build the claims in here.
\<close>

definition SignedString :: "string \<Rightarrow> MapClaims \<Rightarrow> string \<Rightarrow> error + tokenString" where
  "SignedString alg claims key =
     (let header = [(''alg'', JString alg), (''typ'', JString ''JWT'')]
      in case GetSigningMethod alg of
           Some (SigningMethodHMAC a) \<Rightarrow> Inr (Compact header claims (HMAC a key (header, claims)))
         | _ \<Rightarrow> Inl (Errorf ''key is of invalid type''))"

section \<open>token-service.go\<close>

record User =
  User_ID :: string
  User_Name :: string
  User_Password :: string
  User_FirstName :: string
  User_LastName :: string
  User_Role :: string
  User_Age :: int

record tokenService =
  secret :: string
  rejectedTokens :: "string list"

definition NewTokenService :: "string \<Rightarrow> tokenService" where
  "NewTokenService s = \<lparr>secret = s, rejectedTokens = []\<rparr>"

text \<open>
  \<open>GenerateToken\<close>. The two readings of the environment are arguments: \<open>now\<close> is
  \<open>time.Now().Unix()\<close> and \<open>jti\<close> is the result of \<open>uuid.NewString()\<close>.
\<close>

definition GenerateToken :: "tokenService \<Rightarrow> int \<Rightarrow> string \<Rightarrow> User \<Rightarrow> error + tokenString" where
  "GenerateToken t now jti user =
     SignedString ''HS256''
       [(''exp'', JNumber (now + 10 * 60)),
        (''jti'', JString jti),
        (''name'', JString (User_Name user)),
        (''role'', JString (User_Role user)),
        (''user_id'', JString (User_ID user))]
       (secret t)"

text \<open>The key function both \<open>ValidateToken\<close> and \<open>RejectToken\<close> pass to \<open>jwt.Parse\<close>.\<close>

definition keyFunc :: "tokenService \<Rightarrow> Token \<Rightarrow> error + string" where
  "keyFunc t token =
     (case Token_Method token of
        SigningMethodHMAC _ \<Rightarrow> Inr (secret t)
      | _ \<Rightarrow> Inl (Errorf ''unexpected signing method''))"

text \<open>
  The loop of \<open>ValidateToken\<close> over the rejected list: \<open>Return True\<close> when an entry
  equals the token's \<open>jti\<close>. The type assertion is evaluated once per entry, so it can
  panic only when the list is not empty.
\<close>

fun jti_rejected :: "string list \<Rightarrow> MapClaims \<Rightarrow> bool go" where
  "jti_rejected [] claims = Return False"
| "jti_rejected (rejectedJTI # rest) claims =
     (case assert_string (lookup claims ''jti'') of
        Panic msg \<Rightarrow> Panic msg
      | Return jti \<Rightarrow> if rejectedJTI = jti then Return True else jti_rejected rest claims)"

text \<open>
  \<open>ValidateToken\<close>. The claims of a parsed token are always a \<open>jwt.MapClaims\<close>, so
  the checked assertion \<open>token.Claims.(jwt.MapClaims)\<close> succeeds and the condition is
  \<open>token.Valid\<close>.
\<close>

definition ValidateToken :: "tokenService \<Rightarrow> int \<Rightarrow> tokenString \<Rightarrow> (error + User) go" where
  "ValidateToken t now tokenString =
     (case Parse tokenString (keyFunc t) now of
        Inl err \<Rightarrow> Return (Inl err)
      | Inr token \<Rightarrow>
          (case jti_rejected (rejectedTokens t) (Token_Claims token) of
             Panic msg \<Rightarrow> Panic msg
           | Return True \<Rightarrow> Return (Inl (Errorf ''token is rejected''))
           | Return False \<Rightarrow>
               if Token_Valid token then
                 (case assert_string (lookup (Token_Claims token) ''user_id'') of
                    Panic msg \<Rightarrow> Panic msg
                  | Return uid \<Rightarrow>
                      (case assert_string (lookup (Token_Claims token) ''name'') of
                         Panic msg \<Rightarrow> Panic msg
                       | Return name \<Rightarrow>
                           Return (Inr \<lparr>User_ID = uid, User_Name = name, User_Password = [],
                                        User_FirstName = [], User_LastName = [],
                                        User_Role = [], User_Age = 0\<rparr>)))
               else Return (Inl (Errorf ''invalid token''))))"

text \<open>\<open>RejectToken\<close>: the new state of the service and the returned error, if any.\<close>

definition RejectToken :: "tokenService \<Rightarrow> int \<Rightarrow> tokenString \<Rightarrow> (tokenService \<times> error option) go" where
  "RejectToken t now tokenString =
     (case Parse tokenString (keyFunc t) now of
        Inl err \<Rightarrow> Return (t, Some err)
      | Inr token \<Rightarrow>
          if Token_Valid token then
            (case assert_string (lookup (Token_Claims token) ''jti'') of
               Panic msg \<Rightarrow> Panic msg
             | Return jti \<Rightarrow> Return (t\<lparr>rejectedTokens := rejectedTokens t @ [jti]\<rparr>, None))
          else Return (t, None))"


text \<open>
  What it means for a token string to be authentic for a service at clock reading \<open>now\<close>:
  it decodes, its header names one of the HMAC algorithms, its signature is the MAC of the
  two signed segments under the service's secret, and the time claims pass.
\<close>

definition authentic :: "tokenService \<Rightarrow> int \<Rightarrow> tokenString \<Rightarrow> bool" where
  "authentic t now tokenString =
     (case tokenString of
        Garbage _ \<Rightarrow> False
      | Compact header claims sig \<Rightarrow>
          (case lookup header ''alg'' of
             Some (JString alg) \<Rightarrow>
               alg \<in> {''HS256'', ''HS384'', ''HS512''} \<and>
               sig = HMAC alg (secret t) (header, claims) \<and>
               VerifyExpiresAt claims now \<and> VerifyIssuedAt claims now \<and>
               VerifyNotBefore claims now
           | _ \<Rightarrow> False))"

text \<open>The claims segment of a token string, and the \<open>jti\<close> it carries, if it is a string.\<close>

fun claims_of :: "tokenString \<Rightarrow> MapClaims" where
  "claims_of (Garbage _) = []"
| "claims_of (Compact header claims sig) = claims"

definition jti_of :: "tokenString \<Rightarrow> string option" where
  "jti_of tokenString =
     (case lookup (claims_of tokenString) ''jti'' of
        Some (JString jti) \<Rightarrow> Some jti
      | _ \<Rightarrow> None)"

section \<open>vm-service.go\<close>

record VMCreationTask =
  VMCreationTask_TaskID :: string
  VMCreationTask_DeploymentID :: string

record VMDeployment =
  VMDeployment_ID :: string
  VMDeployment_ResourceID :: string
  VMDeployment_Status :: string

record DeploymentUpdate =
  DeploymentUpdate_DeploymentID :: string
  DeploymentUpdate_ResourceID :: string

record VM =
  VM_ID :: string
  VM_Name :: string
  VM_NumCPUs :: int
  VM_MemoryMB :: int

record CreateVMBody =
  CreateVMBody_Name :: string
  CreateVMBody_NumCPUs :: int
  CreateVMBody_MemoryMB :: int

text \<open>
  The service. The two \<open>sync.Map\<close>s are maps. The channel is unbuffered, so what it
  holds at any moment is the updates of the goroutines that are blocked in their send;
  \<open>goroutines\<close> is the part of the Go runtime the service uses: the calls
  \<open>go s.simulateVMCreation(deploymentID, createVMBody)\<close> that have been started and
  have not run yet.
\<close>

record vmService =
  tasks :: "VMCreationTask list"
  deployments :: "string \<rightharpoonup> VMDeployment"
  vms :: "string \<rightharpoonup> VM"
  updateChannel :: "DeploymentUpdate list"
  goroutines :: "(string \<times> CreateVMBody) list"

definition NewVMService :: vmService where
  "NewVMService = \<lparr>tasks = [], deployments = Map.empty, vms = Map.empty,
                    updateChannel = [], goroutines = []\<rparr>"

text \<open>
  \<open>createDeployment\<close>; \<open>depUUID\<close> is the result of its call of \<open>uuid.New().String()\<close>.
\<close>

definition createDeployment :: "vmService \<Rightarrow> string \<Rightarrow> CreateVMBody \<Rightarrow> vmService \<times> VMDeployment" where
  "createDeployment s depUUID createVMBody =
     (let deployment = \<lparr>VMDeployment_ID = depUUID, VMDeployment_ResourceID = [],
                         VMDeployment_Status = ''in-progress''\<rparr>;
          s1 = s\<lparr>deployments := (deployments s)(VMDeployment_ID deployment \<mapsto> deployment)\<rparr>;
          s2 = s1\<lparr>goroutines := goroutines s1 @ [(VMDeployment_ID deployment, createVMBody)]\<rparr>
      in (s2, deployment))"

text \<open>
  \<open>CreateVM\<close>; \<open>taskUUID\<close> is the result of its own call of \<open>uuid.New().String()\<close>,
  made before \<open>createDeployment\<close> is called. The second component is the pair
  \<open>(*VMCreationTask, error)\<close> of the source; the error is always nil.
\<close>

definition CreateVM :: "vmService \<Rightarrow> string \<Rightarrow> string \<Rightarrow> CreateVMBody \<Rightarrow> vmService \<times> (error + VMCreationTask)" where
  "CreateVM s taskUUID depUUID createVMBody =
     (let task = \<lparr>VMCreationTask_TaskID = taskUUID, VMCreationTask_DeploymentID = []\<rparr>;
          (s1, deployment) = createDeployment s depUUID createVMBody;
          task = task\<lparr>VMCreationTask_DeploymentID := VMDeployment_ID deployment\<rparr>;
          s2 = s1\<lparr>tasks := tasks s1 @ [task]\<rparr>
      in (s2, Inr task))"

text \<open>
  \<open>simulateVMCreation\<close>, the body of the goroutine, up to the point where it blocks in
  the send on the channel; \<open>vmUUID\<close> is the result of its call of \<open>uuid.New().String()\<close>.
\<close>

definition simulateVMCreation :: "vmService \<Rightarrow> string \<Rightarrow> string \<Rightarrow> CreateVMBody \<Rightarrow> vmService" where
  "simulateVMCreation s vmUUID deploymentID createVMBody =
     (let vm = \<lparr>VM_ID = vmUUID, VM_Name = CreateVMBody_Name createVMBody,
                 VM_NumCPUs = CreateVMBody_NumCPUs createVMBody,
                 VM_MemoryMB = CreateVMBody_MemoryMB createVMBody\<rparr>;
          s1 = s\<lparr>vms := (vms s)(VM_ID vm \<mapsto> vm)\<rparr>
      in s1\<lparr>updateChannel := updateChannel s1 @
              [\<lparr>DeploymentUpdate_DeploymentID = deploymentID,
                DeploymentUpdate_ResourceID = VM_ID vm\<rparr>]\<rparr>)"

text \<open>
  \<open>UpdateDeploymentStatus\<close>: the loop \<open>for update := range s.updateChannel\<close>. The
  channel is never closed, so the loop does not return; the function gives the service
  after the loop has received the given updates, one iteration for each.
\<close>

fun UpdateDeploymentStatus :: "vmService \<Rightarrow> DeploymentUpdate list \<Rightarrow> vmService" where
  "UpdateDeploymentStatus s [] = s"
| "UpdateDeploymentStatus s (update # rest) =
     (case deployments s (DeploymentUpdate_DeploymentID update) of
        None \<Rightarrow> UpdateDeploymentStatus s rest
      | Some deployment \<Rightarrow>
          UpdateDeploymentStatus
            (s\<lparr>deployments := (deployments s)(DeploymentUpdate_DeploymentID update \<mapsto>
                  deployment\<lparr>VMDeployment_Status := ''created''\<rparr>)\<rparr>)
            rest)"

subsection \<open>The service running with its goroutines\<close>

text \<open>
  What can happen to a running service: a request handler calls \<open>CreateVM\<close>; a started
  goroutine runs \<open>simulateVMCreation\<close> up to its send; the loop of
  \<open>UpdateDeploymentStatus\<close> receives the update of one blocked sender and runs one
  iteration. The identifiers that \<open>uuid.New\<close> hands out are carried by the event. A
  deployment identifier is taken to be new, which is what a UUID is for: \<open>CreateVM\<close>
  with an identifier that already names a deployment is not a step.
\<close>

datatype event =
    CallCreateVM string string CreateVMBody
  | RunGoroutine string CreateVMBody string
  | Receive DeploymentUpdate

fun step :: "vmService \<Rightarrow> event \<Rightarrow> vmService option" where
  "step s (CallCreateVM taskUUID depUUID createVMBody) =
     (if deployments s depUUID \<noteq> None then None
      else Some (fst (CreateVM s taskUUID depUUID createVMBody)))"
| "step s (RunGoroutine deploymentID createVMBody vmUUID) =
     (if (deploymentID, createVMBody) \<in> set (goroutines s)
      then Some (simulateVMCreation
                   (s\<lparr>goroutines := remove1 (deploymentID, createVMBody) (goroutines s)\<rparr>)
                   vmUUID deploymentID createVMBody)
      else None)"
| "step s (Receive update) =
     (if update \<in> set (updateChannel s)
      then Some (UpdateDeploymentStatus
                   (s\<lparr>updateChannel := remove1 update (updateChannel s)\<rparr>) [update])
      else None)"

fun run :: "vmService \<Rightarrow> event list \<Rightarrow> vmService option" where
  "run s [] = Some s"
| "run s (e # es) = (case step s e of None \<Rightarrow> None | Some s' \<Rightarrow> run s' es)"

text \<open>The deployments named by the updates that the loop has received in a run.\<close>

fun received :: "event list \<Rightarrow> string list" where
  "received [] = []"
| "received (Receive update # es) = DeploymentUpdate_DeploymentID update # received es"
| "received (_ # es) = received es"

section \<open>Example values\<close>

text \<open>
  The service as \<open>main\<close> constructs it, a user, the token that \<open>GenerateToken\<close> issues
  for her at clock reading 1000 with the identifier \<open>j1\<close>, the service after that
  identifier has been rejected, and two token strings that are signed with the service's
  secret but lack one of the claims \<open>GenerateToken\<close> writes.
\<close>

definition tokenService0 :: tokenService where
  "tokenService0 = NewTokenService ''secret''"

definition alice :: User where
  "alice = \<lparr>User_ID = ''u1'', User_Name = ''alice'', User_Password = ''pw'',
            User_FirstName = [], User_LastName = [], User_Role = ''admin'', User_Age = 30\<rparr>"

definition alice_token :: tokenString where
  "alice_token =
     Compact [(''alg'', JString ''HS256''), (''typ'', JString ''JWT'')]
       [(''exp'', JNumber 1600), (''jti'', JString ''j1''), (''name'', JString ''alice''),
        (''role'', JString ''admin''), (''user_id'', JString ''u1'')]
       (HMAC ''HS256'' ''secret''
          ([(''alg'', JString ''HS256''), (''typ'', JString ''JWT'')],
           [(''exp'', JNumber 1600), (''jti'', JString ''j1''), (''name'', JString ''alice''),
            (''role'', JString ''admin''), (''user_id'', JString ''u1'')]))"

definition token_without_user_id :: tokenString where
  "token_without_user_id =
     Compact [(''alg'', JString ''HS256''), (''typ'', JString ''JWT'')]
       [(''exp'', JNumber 1600), (''jti'', JString ''j2''), (''name'', JString ''bob'')]
       (HMAC ''HS256'' ''secret''
          ([(''alg'', JString ''HS256''), (''typ'', JString ''JWT'')],
           [(''exp'', JNumber 1600), (''jti'', JString ''j2''), (''name'', JString ''bob'')]))"

definition tokenService1 :: tokenService where
  "tokenService1 = \<lparr>secret = ''secret'', rejectedTokens = [''j1'']\<rparr>"

definition token_without_jti :: tokenString where
  "token_without_jti =
     Compact [(''alg'', JString ''HS256''), (''typ'', JString ''JWT'')]
       [(''exp'', JNumber 1600), (''name'', JString ''bob''), (''user_id'', JString ''u2'')]
       (HMAC ''HS256'' ''secret''
          ([(''alg'', JString ''HS256''), (''typ'', JString ''JWT'')],
           [(''exp'', JNumber 1600), (''name'', JString ''bob''), (''user_id'', JString ''u2'')]))"

text \<open>
  A creation request, one with an empty name, and the provisioning service at two moments
  of one request: when the goroutine has stored its VM and is blocked in its send, and
  after the loop has received that update.
\<close>

definition web1 :: CreateVMBody where
  "web1 = \<lparr>CreateVMBody_Name = ''web1'', CreateVMBody_NumCPUs = 2, CreateVMBody_MemoryMB = 2048\<rparr>"

definition nameless :: CreateVMBody where
  "nameless = \<lparr>CreateVMBody_Name = [], CreateVMBody_NumCPUs = 2, CreateVMBody_MemoryMB = 2048\<rparr>"

definition update1 :: DeploymentUpdate where
  "update1 = \<lparr>DeploymentUpdate_DeploymentID = ''d1'', DeploymentUpdate_ResourceID = ''v1''\<rparr>"

definition pending_service :: vmService where
  "pending_service =
     \<lparr>tasks = [\<lparr>VMCreationTask_TaskID = ''t1'', VMCreationTask_DeploymentID = ''d1''\<rparr>],
      deployments = [''d1'' \<mapsto> \<lparr>VMDeployment_ID = ''d1'', VMDeployment_ResourceID = [],
                                 VMDeployment_Status = ''in-progress''\<rparr>],
      vms = [''v1'' \<mapsto> \<lparr>VM_ID = ''v1'', VM_Name = ''web1'', VM_NumCPUs = 2,
                         VM_MemoryMB = 2048\<rparr>],
      updateChannel = [update1],
      goroutines = []\<rparr>"

definition reconciled_service :: vmService where
  "reconciled_service =
     \<lparr>tasks = [\<lparr>VMCreationTask_TaskID = ''t1'', VMCreationTask_DeploymentID = ''d1''\<rparr>],
      deployments = [''d1'' \<mapsto> \<lparr>VMDeployment_ID = ''d1'', VMDeployment_ResourceID = [],
                                 VMDeployment_Status = ''created''\<rparr>],
      vms = [''v1'' \<mapsto> \<lparr>VM_ID = ''v1'', VM_Name = ''web1'', VM_NumCPUs = 2,
                         VM_MemoryMB = 2048\<rparr>],
      updateChannel = [],
      goroutines = []\<rparr>"

section \<open>The invariant of the provisioning pipeline\<close>

text \<open>
  \<open>c d\<close> is the number of updates naming \<open>d\<close> that the loop has received. For every
  identifier, the goroutines started for it, the updates for it waiting in the channel and
  the updates for it already received number one if it names a deployment and none
  otherwise; a deployment is stored under its own identifier and is \<open>in-progress\<close>
  exactly as long as no update for it has been received.
\<close>

definition deployment_inv :: "vmService \<Rightarrow> (string \<Rightarrow> nat) \<Rightarrow> bool" where
  "deployment_inv s c \<longleftrightarrow>
     (\<forall>d. count_list (map fst (goroutines s)) d +
          count_list (map DeploymentUpdate_DeploymentID (updateChannel s)) d + c d =
          (if deployments s d = None then 0 else 1)) \<and>
     (\<forall>d dep. deployments s d = Some dep \<longrightarrow>
        VMDeployment_ID dep = d \<and>
        VMDeployment_Status dep = (if c d = 0 then ''in-progress'' else ''created''))"

section \<open>Properties of the token service\<close>

subsection \<open>What \<open>jwt.Parse\<close> accepts\<close>

lemma lookup_Nil [simp]: "lookup [] k = None"
  by (simp add: lookup_def)

lemma lookup_Cons [simp]:
  "lookup ((k', v) # m) k =
     (case lookup m k of None \<Rightarrow> (if k = k' then Some v else None) | Some w \<Rightarrow> Some w)"
  by (simp add: lookup_def map_add_def split: option.splits)

lemma Parse_Inr_Valid: "Parse ts kf now = Inr token \<Longrightarrow> Token_Valid token"
  by (auto simp: Parse_def split: sum.splits if_splits)

lemma GetSigningMethod_HMAC_D:
  "GetSigningMethod alg = Some (SigningMethodHMAC a) \<Longrightarrow>
   a = alg \<and> alg \<in> {''HS256'', ''HS384'', ''HS512''}"
  by (simp add: GetSigningMethod_def split: if_splits)

lemma GetSigningMethod_HMAC_I:
  "alg \<in> {''HS256'', ''HS384'', ''HS512''} \<Longrightarrow>
   GetSigningMethod alg = Some (SigningMethodHMAC alg)"
  by (elim insertE emptyE) (simp_all add: GetSigningMethod_def)

lemma MapClaims_Valid_empty:
  "MapClaims_Valid c now = {} \<longleftrightarrow>
   VerifyExpiresAt c now \<and> VerifyIssuedAt c now \<and> VerifyNotBefore c now"
  by (simp add: MapClaims_Valid_def)

lemma ParseUnverified_Inr:
  "ParseUnverified ts = Inr tok \<Longrightarrow>
   \<exists>h c sg alg m. ts = Compact h c sg \<and> lookup h ''alg'' = Some (JString alg) \<and>
      GetSigningMethod alg = Some m \<and>
      tok = \<lparr>Token_Method = m, Token_Header = h, Token_Claims = c,
             Token_Signature = sg, Token_Valid = False\<rparr>"
  by (cases ts) (auto simp: ParseUnverified_def split: option.splits json.splits)

lemma Parse_Inr:
  "Parse ts kf now = Inr token \<Longrightarrow>
   \<exists>tok key. ParseUnverified ts = Inr tok \<and> kf tok = Inr key \<and>
      Method_Verify (Token_Method tok) (Token_Header tok, Token_Claims tok)
        (Token_Signature tok) key \<and>
      MapClaims_Valid (Token_Claims tok) now = {} \<and>
      token = tok\<lparr>Token_Valid := True\<rparr>"
  by (auto simp: Parse_def split: sum.splits if_splits)

lemma keyFunc_Inr:
  "keyFunc t tok = Inr key \<Longrightarrow> key = secret t \<and> (\<exists>a. Token_Method tok = SigningMethodHMAC a)"
  by (cases "Token_Method tok") (simp_all add: keyFunc_def)

lemma Parse_Inr_authentic:
  assumes "Parse ts (keyFunc t) now = Inr token"
  shows "authentic t now ts \<and> Token_Claims token = claims_of ts \<and> Token_Valid token"
proof -
  from Parse_Inr [OF assms] obtain tok key where
    pu: "ParseUnverified ts = Inr tok" and kf: "keyFunc t tok = Inr key" and
    mv: "Method_Verify (Token_Method tok) (Token_Header tok, Token_Claims tok)
           (Token_Signature tok) key" and
    cv: "MapClaims_Valid (Token_Claims tok) now = {}" and
    token: "token = tok\<lparr>Token_Valid := True\<rparr>"
    by (elim exE conjE)
  from ParseUnverified_Inr [OF pu] obtain h c sg alg m where
    ts: "ts = Compact h c sg" and alg: "lookup h ''alg'' = Some (JString alg)" and
    m: "GetSigningMethod alg = Some m" and
    tok: "tok = \<lparr>Token_Method = m, Token_Header = h, Token_Claims = c,
                  Token_Signature = sg, Token_Valid = False\<rparr>"
    by (elim exE conjE)
  from keyFunc_Inr [OF kf] have key: "key = secret t" by (rule conjunct1)
  from keyFunc_Inr [OF kf] obtain a where "Token_Method tok = SigningMethodHMAC a"
    by (elim exE conjE)
  then have a: "m = SigningMethodHMAC a" by (simp add: tok)
  from m have "GetSigningMethod alg = Some (SigningMethodHMAC a)" unfolding a .
  then have "a = alg \<and> alg \<in> {''HS256'', ''HS384'', ''HS512''}"
    by (rule GetSigningMethod_HMAC_D)
  then have aa: "a = alg" and hs: "alg \<in> {''HS256'', ''HS384'', ''HS512''}"
    by (rule conjunct1, rule conjunct2)
  from mv have sg: "sg = HMAC alg (secret t) (h, c)"
    by (simp add: tok a aa key)
  from cv have v: "VerifyExpiresAt c now \<and> VerifyIssuedAt c now \<and> VerifyNotBefore c now"
    by (simp add: tok MapClaims_Valid_empty)
  have "authentic t now ts"
    using hs sg v by (simp add: authentic_def ts alg)
  moreover have "Token_Claims token = claims_of ts" by (simp add: token tok ts)
  moreover have "Token_Valid token" by (simp add: token)
  ultimately show ?thesis by simp
qed

lemma authentic_Parse:
  assumes "authentic t now ts"
  shows "\<exists>token. Parse ts (keyFunc t) now = Inr token"
proof (cases ts)
  case (Garbage g)
  with assms show ?thesis by (simp add: authentic_def)
next
  case (Compact h c sg)
  from assms Compact obtain alg where alg: "lookup h ''alg'' = Some (JString alg)"
    by (auto simp: authentic_def split: option.splits json.splits)
  from assms Compact alg have hs: "alg \<in> {''HS256'', ''HS384'', ''HS512''}"
    and sg: "sg = HMAC alg (secret t) (h, c)"
    and v: "VerifyExpiresAt c now" "VerifyIssuedAt c now" "VerifyNotBefore c now"
    by (simp_all add: authentic_def)
  from hs have m: "GetSigningMethod alg = Some (SigningMethodHMAC alg)"
    by (rule GetSigningMethod_HMAC_I)
  from Compact alg m sg v show ?thesis
    by (simp add: Parse_def ParseUnverified_def keyFunc_def MapClaims_Valid_def)
qed

lemma Parse_error_is_ValidationError:
  "Parse ts kf now = Inl err \<Longrightarrow> \<exists>flags. err = ValidationError flags"
  by (auto simp: Parse_def ParseUnverified_def
      split: tokenString.splits option.splits json.splits sum.splits if_splits)

lemma jti_rejected_eq:
  "jti_rejected l c =
     (if l = [] then Return False
      else case assert_string (lookup c ''jti'') of
             Panic msg \<Rightarrow> Panic msg
           | Return jti \<Rightarrow> Return (jti \<in> set l))"
  by (induction l) (auto split: go.splits)

lemma ValidateToken_authentic:
  assumes "authentic t now ts"
  shows "ValidateToken t now ts =
     (case jti_rejected (rejectedTokens t) (claims_of ts) of
        Panic msg \<Rightarrow> Panic msg
      | Return True \<Rightarrow> Return (Inl (Errorf ''token is rejected''))
      | Return False \<Rightarrow>
          (case assert_string (lookup (claims_of ts) ''user_id'') of
             Panic msg \<Rightarrow> Panic msg
           | Return uid \<Rightarrow>
               (case assert_string (lookup (claims_of ts) ''name'') of
                  Panic msg \<Rightarrow> Panic msg
                | Return name \<Rightarrow>
                    Return (Inr \<lparr>User_ID = uid, User_Name = name, User_Password = [],
                                 User_FirstName = [], User_LastName = [],
                                 User_Role = [], User_Age = 0\<rparr>))))"
proof -
  from authentic_Parse [OF assms] obtain token where p: "Parse ts (keyFunc t) now = Inr token"
    by blast
  from Parse_Inr_authentic [OF p] have "Token_Claims token = claims_of ts" "Token_Valid token"
    by simp_all
  with p show ?thesis by (simp add: ValidateToken_def cong: go.case_cong bool.case_cong)
qed

lemma RejectToken_authentic:
  assumes "authentic t now ts"
  shows "RejectToken t now ts =
     (case assert_string (lookup (claims_of ts) ''jti'') of
        Panic msg \<Rightarrow> Panic msg
      | Return jti \<Rightarrow> Return (t\<lparr>rejectedTokens := rejectedTokens t @ [jti]\<rparr>, None))"
proof -
  from authentic_Parse [OF assms] obtain token where p: "Parse ts (keyFunc t) now = Inr token"
    by blast
  from Parse_Inr_authentic [OF p] have "Token_Claims token = claims_of ts" "Token_Valid token"
    by simp_all
  with p show ?thesis by (simp add: RejectToken_def cong: go.case_cong)
qed








lemma SignedString_HS256:
  "SignedString ''HS256'' claims key =
     Inr (Compact [(''alg'', JString ''HS256''), (''typ'', JString ''JWT'')] claims
            (HMAC ''HS256'' key ([(''alg'', JString ''HS256''), (''typ'', JString ''JWT'')], claims)))"
  by (simp add: SignedString_def GetSigningMethod_def Let_def)

text \<open>
  Every token that \<open>GenerateToken\<close> issues carries the identifier it was given as a
  string \<open>jti\<close>, and is authentic for the issuing service until its expiry.
\<close>

lemma GenerateToken_issued:
  "\<exists>ts. GenerateToken t now jti user = Inr ts \<and> jti_of ts = Some jti \<and>
      (\<forall>now'. now' < now + 600 \<longrightarrow> authentic t now' ts)"
  by (simp add: GenerateToken_def SignedString_HS256 jti_of_def authentic_def
        VerifyExpiresAt_def VerifyIssuedAt_def VerifyNotBefore_def)


lemma claims_of_alice_token:
  "claims_of alice_token =
     [(''exp'', JNumber 1600), (''jti'', JString ''j1''), (''name'', JString ''alice''),
      (''role'', JString ''admin''), (''user_id'', JString ''u1'')]"
  by (simp add: alice_token_def)

lemma rejectedTokens_tokenService0: "rejectedTokens tokenService0 = []"
  by (simp add: tokenService0_def NewTokenService_def)

subsection \<open>Issuing and verifying\<close>

text \<open>
  C2, as the code has it. A token that \<open>GenerateToken\<close> issues for a user verifies, on a
  service with the same secret, at every clock reading before its expiry and as long as
  its identifier is not on the rejected list. The token carries the user's role, but the
  user that \<open>ValidateToken\<close> returns has only the identifier and the name of the claims;
  every other field, the role included, is the zero value.
\<close>

theorem ValidateToken_GenerateToken:
  assumes "secret t' = secret t" and "now' < now + 600" and "jti \<notin> set (rejectedTokens t')"
  shows "\<exists>ts. GenerateToken t now jti user = Inr ts \<and>
           lookup (claims_of ts) ''role'' = Some (JString (User_Role user)) \<and>
           ValidateToken t' now' ts =
             Return (Inr \<lparr>User_ID = User_ID user, User_Name = User_Name user,
                          User_Password = [], User_FirstName = [], User_LastName = [],
                          User_Role = [], User_Age = 0\<rparr>)"
proof -
  define claims where "claims =
    [(''exp'', JNumber (now + 10 * 60)), (''jti'', JString jti),
     (''name'', JString (User_Name user)), (''role'', JString (User_Role user)),
     (''user_id'', JString (User_ID user))]"
  define header where "header = [(''alg'', JString ''HS256''), (''typ'', JString ''JWT'')]"
  define ts where "ts = Compact header claims (HMAC ''HS256'' (secret t) (header, claims))"
  have g: "GenerateToken t now jti user = Inr ts"
    by (simp add: GenerateToken_def SignedString_HS256 ts_def header_def claims_def)
  have e: "VerifyExpiresAt claims now'"
    using assms(2) by (simp add: VerifyExpiresAt_def claims_def)
  have i: "VerifyIssuedAt claims now'" by (simp add: VerifyIssuedAt_def claims_def)
  have n: "VerifyNotBefore claims now'" by (simp add: VerifyNotBefore_def claims_def)
  have a: "authentic t' now' ts"
    using e i n assms(1) by (simp add: authentic_def ts_def header_def)
  have c: "claims_of ts = claims" by (simp add: ts_def)
  have j: "assert_string (lookup claims ''jti'') = Return jti" by (simp add: claims_def)
  have u: "assert_string (lookup claims ''user_id'') = Return (User_ID user)"
    by (simp add: claims_def)
  have m: "assert_string (lookup claims ''name'') = Return (User_Name user)"
    by (simp add: claims_def)
  have r: "lookup claims ''role'' = Some (JString (User_Role user))"
    by (simp add: claims_def)
  have jr: "jti_rejected (rejectedTokens t') claims = Return False"
    using assms(3) by (simp add: jti_rejected_eq j)
  have "ValidateToken t' now' ts =
          Return (Inr \<lparr>User_ID = User_ID user, User_Name = User_Name user,
                       User_Password = [], User_FirstName = [], User_LastName = [],
                       User_Role = [], User_Age = 0\<rparr>)"
    by (simp add: ValidateToken_authentic [OF a] c jr u m)
  with g r c show ?thesis by simp
qed

theorem ValidateToken_GenerateToken_witness:
  "secret tokenService0 = secret tokenService0 \<and> (1000::int) < 1000 + 600 \<and>
   ''j1'' \<notin> set (rejectedTokens tokenService0) \<and>
   (\<exists>ts. GenerateToken tokenService0 1000 ''j1'' alice = Inr ts \<and>
      lookup (claims_of ts) ''role'' = Some (JString (User_Role alice)) \<and>
      ValidateToken tokenService0 1000 ts =
        Return (Inr \<lparr>User_ID = User_ID alice, User_Name = User_Name alice,
                     User_Password = [], User_FirstName = [], User_LastName = [],
                     User_Role = [], User_Age = 0\<rparr>))"
proof -
  have h1: "secret tokenService0 = secret tokenService0" by simp
  have h2: "(1000::int) < 1000 + 600" by simp
  have h3: "''j1'' \<notin> set (rejectedTokens tokenService0)"
    by (simp add: tokenService0_def NewTokenService_def)
  show ?thesis
    using h2 h3 ValidateToken_GenerateToken [OF h1 h2 h3, of alice] by simp
qed

text \<open>
  C2, as the specification states it, fails for the user \<open>alice\<close> with role \<open>admin\<close>: the
  user returned for her fresh token has the empty role.
\<close>

theorem ValidateToken_drops_role:
  "GenerateToken tokenService0 1000 ''j1'' alice = Inr alice_token \<and>
   ValidateToken tokenService0 1000 alice_token =
     Return (Inr \<lparr>User_ID = ''u1'', User_Name = ''alice'', User_Password = [],
                  User_FirstName = [], User_LastName = [], User_Role = [], User_Age = 0\<rparr>) \<and>
   User_Role \<lparr>User_ID = ''u1'', User_Name = ''alice'', User_Password = [],
              User_FirstName = [], User_LastName = [], User_Role = [], User_Age = 0\<rparr>
     \<noteq> User_Role alice"
proof -
  have g: "GenerateToken tokenService0 1000 ''j1'' alice = Inr alice_token"
    by (simp add: GenerateToken_def SignedString_HS256 alice_token_def alice_def
          tokenService0_def NewTokenService_def)
  have a: "authentic tokenService0 1000 alice_token"
    by (simp add: authentic_def alice_token_def tokenService0_def NewTokenService_def
          VerifyExpiresAt_def VerifyIssuedAt_def VerifyNotBefore_def)
  have c: "claims_of alice_token =
      [(''exp'', JNumber 1600), (''jti'', JString ''j1''), (''name'', JString ''alice''),
       (''role'', JString ''admin''), (''user_id'', JString ''u1'')]"
    by (simp add: alice_token_def)
  have r: "rejectedTokens tokenService0 = []"
    by (simp add: tokenService0_def NewTokenService_def)
  have v: "ValidateToken tokenService0 1000 alice_token =
     Return (Inr \<lparr>User_ID = ''u1'', User_Name = ''alice'', User_Password = [],
                  User_FirstName = [], User_LastName = [], User_Role = [], User_Age = 0\<rparr>)"
    by (simp add: ValidateToken_authentic [OF a] c r)
  from g v show ?thesis by (simp add: alice_def)
qed

subsection \<open>Panics\<close>

text \<open>
  C3. A token string that is signed with the service's secret and unexpired, but has no
  \<open>user_id\<close> claim, makes \<open>ValidateToken\<close> panic in the unchecked assertion
  \<open>claims["user_id"].(string)\<close>; one without a \<open>jti\<close> claim makes \<open>RejectToken\<close> panic
  in \<open>claims["jti"].(string)\<close>.
\<close>

theorem token_operations_panic:
  "authentic tokenService0 1000 token_without_user_id \<and>
   ValidateToken tokenService0 1000 token_without_user_id =
     Panic ''interface conversion: interface {} is not string'' \<and>
   authentic tokenService0 1000 token_without_jti \<and>
   RejectToken tokenService0 1000 token_without_jti =
     Panic ''interface conversion: interface {} is not string''"
proof -
  have a: "authentic tokenService0 1000 token_without_user_id"
    by (simp add: authentic_def token_without_user_id_def tokenService0_def
          NewTokenService_def VerifyExpiresAt_def VerifyIssuedAt_def VerifyNotBefore_def)
  have c: "claims_of token_without_user_id =
      [(''exp'', JNumber 1600), (''jti'', JString ''j2''), (''name'', JString ''bob'')]"
    by (simp add: token_without_user_id_def)
  have v: "ValidateToken tokenService0 1000 token_without_user_id =
     Panic ''interface conversion: interface {} is not string''"
    by (simp add: ValidateToken_authentic [OF a] c rejectedTokens_tokenService0)
  have a': "authentic tokenService0 1000 token_without_jti"
    by (simp add: authentic_def token_without_jti_def tokenService0_def
          NewTokenService_def VerifyExpiresAt_def VerifyIssuedAt_def VerifyNotBefore_def)
  have c': "claims_of token_without_jti =
      [(''exp'', JNumber 1600), (''name'', JString ''bob''), (''user_id'', JString ''u2'')]"
    by (simp add: token_without_jti_def)
  have r: "RejectToken tokenService0 1000 token_without_jti =
     Panic ''interface conversion: interface {} is not string''"
    by (simp add: RejectToken_authentic [OF a'] c')
  from a v a' r show ?thesis by simp
qed

subsection \<open>Rejecting\<close>



text \<open>
  C10. When the token string is not authentic (it is malformed, names an algorithm that is
  not an HMAC, has a signature that is not the MAC under the secret, or is expired),
  \<open>RejectToken\<close> returns an error and the service, with its list of rejected tokens, is
  unchanged.
\<close>

theorem RejectToken_not_authentic_unchanged:
  assumes "\<not> authentic t now tokenString"
  shows "\<exists>err. RejectToken t now tokenString = Return (t, Some err)"
proof (cases "Parse tokenString (keyFunc t) now")
  case (Inl err)
  then show ?thesis by (simp add: RejectToken_def)
next
  case (Inr token)
  with Parse_Inr_authentic assms show ?thesis by blast
qed

theorem RejectToken_not_authentic_unchanged_witness:
  "\<not> authentic tokenService0 1600 alice_token \<and>
   (\<exists>err. RejectToken tokenService0 1600 alice_token = Return (tokenService0, Some err))"
proof -
  have h: "\<not> authentic tokenService0 1600 alice_token"
    by (simp add: authentic_def alice_token_def VerifyExpiresAt_def)
  show ?thesis
    using h RejectToken_not_authentic_unchanged [OF h] by simp
qed

subsection \<open>Verifying a rejected token\<close>

text \<open>
  C5. \<open>ValidateToken\<close> answers \<open>token is rejected\<close> only for a token string whose header
  names an HMAC algorithm, whose signature is the MAC of header and claims under the
  service's secret, that is unexpired, and whose \<open>jti\<close> is on the rejected list. A
  malformed, forged or expired token string never gets that answer.
\<close>

theorem ValidateToken_rejected_only_if_authentic:
  assumes "ValidateToken t now tokenString = Return (Inl (Errorf ''token is rejected''))"
  shows "\<exists>header claims alg jti.
           tokenString = Compact header claims (HMAC alg (secret t) (header, claims)) \<and>
           lookup header ''alg'' = Some (JString alg) \<and>
           alg \<in> {''HS256'', ''HS384'', ''HS512''} \<and>
           VerifyExpiresAt claims now \<and>
           lookup claims ''jti'' = Some (JString jti) \<and> jti \<in> set (rejectedTokens t)"
proof (cases "Parse tokenString (keyFunc t) now")
  case (Inl err)
  with Parse_error_is_ValidationError [OF Inl] assms show ?thesis
    by (auto simp: ValidateToken_def)
next
  case (Inr token)
  from Parse_Inr_authentic [OF Inr] have a: "authentic t now tokenString" by simp
  from a obtain header claims sg where ts: "tokenString = Compact header claims sg"
    by (cases tokenString) (simp_all add: authentic_def)
  from a ts obtain alg where alg: "lookup header ''alg'' = Some (JString alg)"
    by (auto simp: authentic_def split: option.splits json.splits)
  from a ts alg have rest: "alg \<in> {''HS256'', ''HS384'', ''HS512''}"
    "sg = HMAC alg (secret t) (header, claims)" "VerifyExpiresAt claims now"
    by (simp_all add: authentic_def)
  from assms ValidateToken_authentic [OF a]
  have "jti_rejected (rejectedTokens t) (claims_of tokenString) = Return True"
    by (auto split: go.splits bool.splits)
  with ts have "jti_rejected (rejectedTokens t) claims = Return True" by simp
  then obtain jti where "lookup claims ''jti'' = Some (JString jti)" "jti \<in> set (rejectedTokens t)"
    unfolding jti_rejected_eq
    by (cases "lookup claims ''jti''" rule: assert_string.cases)
       (auto split: if_splits)
  with ts alg rest show ?thesis by blast
qed

theorem ValidateToken_rejected_only_if_authentic_witness:
  "ValidateToken tokenService1 1000 alice_token = Return (Inl (Errorf ''token is rejected'')) \<and>
   (\<exists>header claims alg jti.
      alice_token = Compact header claims (HMAC alg (secret tokenService1) (header, claims)) \<and>
      lookup header ''alg'' = Some (JString alg) \<and>
      alg \<in> {''HS256'', ''HS384'', ''HS512''} \<and>
      VerifyExpiresAt claims 1000 \<and>
      lookup claims ''jti'' = Some (JString jti) \<and> jti \<in> set (rejectedTokens tokenService1))"
proof -
  have a: "authentic tokenService1 1000 alice_token"
    by (simp add: authentic_def alice_token_def tokenService1_def
          VerifyExpiresAt_def VerifyIssuedAt_def VerifyNotBefore_def)
  have r: "rejectedTokens tokenService1 = [''j1'']" by (simp add: tokenService1_def)
  have h: "ValidateToken tokenService1 1000 alice_token =
      Return (Inl (Errorf ''token is rejected''))"
    by (simp add: ValidateToken_authentic [OF a] claims_of_alice_token r)
  show ?thesis
    using h ValidateToken_rejected_only_if_authentic [OF h] by simp
qed



section \<open>Properties of the provisioning pipeline\<close>

subsection \<open>The operations, field by field\<close>

lemma CreateVM_eq:
  "CreateVM s taskUUID depUUID body =
     (s\<lparr>deployments := (deployments s)(depUUID \<mapsto>
           \<lparr>VMDeployment_ID = depUUID, VMDeployment_ResourceID = [],
            VMDeployment_Status = ''in-progress''\<rparr>),
         goroutines := goroutines s @ [(depUUID, body)],
         tasks := tasks s @ [\<lparr>VMCreationTask_TaskID = taskUUID,
                               VMCreationTask_DeploymentID = depUUID\<rparr>]\<rparr>,
      Inr \<lparr>VMCreationTask_TaskID = taskUUID, VMCreationTask_DeploymentID = depUUID\<rparr>)"
  by (simp add: CreateVM_def createDeployment_def Let_def)

lemma simulateVMCreation_eq:
  "simulateVMCreation s vmUUID deploymentID body =
     s\<lparr>vms := (vms s)(vmUUID \<mapsto>
           \<lparr>VM_ID = vmUUID, VM_Name = CreateVMBody_Name body,
            VM_NumCPUs = CreateVMBody_NumCPUs body, VM_MemoryMB = CreateVMBody_MemoryMB body\<rparr>),
       updateChannel := updateChannel s @
           [\<lparr>DeploymentUpdate_DeploymentID = deploymentID,
             DeploymentUpdate_ResourceID = vmUUID\<rparr>]\<rparr>"
  by (simp add: simulateVMCreation_def Let_def)

lemma UpdateDeploymentStatus_single:
  "UpdateDeploymentStatus s [update] =
     (case deployments s (DeploymentUpdate_DeploymentID update) of
        None \<Rightarrow> s
      | Some deployment \<Rightarrow>
          s\<lparr>deployments := (deployments s)(DeploymentUpdate_DeploymentID update \<mapsto>
               deployment\<lparr>VMDeployment_Status := ''created''\<rparr>)\<rparr>)"
  by (simp split: option.splits)

lemma count_list_map_mem: "x \<in> set xs \<Longrightarrow> 0 < count_list (map f xs) (f x)"
  by (induction xs) auto

lemma count_list_map_remove1:
  "x \<in> set xs \<Longrightarrow>
   count_list (map f (remove1 x xs)) k = count_list (map f xs) k - (if f x = k then 1 else 0)"
proof (induction xs)
  case Nil
  then show ?case by simp
next
  case (Cons a xs)
  show ?case
  proof (cases "x = a")
    case True
    then show ?thesis by simp
  next
    case False
    with Cons.prems have m: "x \<in> set xs" by simp
    from count_list_map_mem [OF m, of f] have "0 < count_list (map f xs) (f x)" .
    with Cons.IH [OF m] False show ?thesis by auto
  qed
qed

lemma received_Cons: "received (e # es) = received [e] @ received es"
  by (cases e) simp_all

lemma received_append: "received (es @ es') = received es @ received es'"
  by (induction es rule: received.induct) simp_all

lemma run_append:
  "run s (es @ es') = (case run s es of None \<Rightarrow> None | Some s1 \<Rightarrow> run s1 es')"
  by (induction es arbitrary: s) (simp_all split: option.splits)

lemma step_deployments_kept:
  assumes "step s e = Some s'" and "deployments s d \<noteq> None"
  shows "deployments s' d \<noteq> None"
proof (cases e)
  case (CallCreateVM t d0 b)
  with assms show ?thesis by (auto simp: CreateVM_eq split: if_splits)
next
  case (RunGoroutine d0 b v)
  with assms show ?thesis by (auto simp: simulateVMCreation_eq split: if_splits)
next
  case (Receive u)
  with assms show ?thesis
    by (auto simp: UpdateDeploymentStatus_single split: if_splits option.splits)
qed

lemma run_deployments_kept:
  "run s es = Some s' \<Longrightarrow> deployments s d \<noteq> None \<Longrightarrow> deployments s' d \<noteq> None"
proof (induction es arbitrary: s)
  case Nil
  then show ?case by simp
next
  case (Cons e es)
  from Cons.prems(1) obtain s1 where s1: "step s e = Some s1" and r: "run s1 es = Some s'"
    by (auto split: option.splits)
  from s1 Cons.prems(2) have "deployments s1 d \<noteq> None" by (rule step_deployments_kept)
  with Cons.IH r show ?case by blast
qed

lemma run_pending_service:
  "run NewVMService [CallCreateVM ''t1'' ''d1'' web1, RunGoroutine ''d1'' web1 ''v1''] =
     Some pending_service"
  by (simp add: NewVMService_def CreateVM_eq simulateVMCreation_eq pending_service_def
        update1_def web1_def)

lemma run_reconciled_service:
  "run pending_service [Receive update1] = Some reconciled_service"
  by (simp add: pending_service_def reconciled_service_def update1_def)

subsection \<open>The synchronous step\<close>

text \<open>
  C8. \<open>CreateVM\<close> returns, without error, the task made of the two identifiers that
  \<open>uuid.New\<close> handed to this call: the task identifier and the identifier of the
  deployment. It stores under the latter a deployment with status \<open>in-progress\<close> and no
  resource identifier, appends the returned task to the list of tasks, starts one
  goroutine, and touches neither the VMs nor the channel. The deployment is therefore
  there, in progress, before any update has been received.
\<close>

theorem CreateVM_synchronous_step:
  "snd (CreateVM s taskUUID depUUID createVMBody) =
     Inr \<lparr>VMCreationTask_TaskID = taskUUID, VMCreationTask_DeploymentID = depUUID\<rparr> \<and>
   deployments (fst (CreateVM s taskUUID depUUID createVMBody)) =
     (deployments s)(depUUID \<mapsto> \<lparr>VMDeployment_ID = depUUID, VMDeployment_ResourceID = [],
                                   VMDeployment_Status = ''in-progress''\<rparr>) \<and>
   deployments (fst (CreateVM s taskUUID depUUID createVMBody)) depUUID =
     Some \<lparr>VMDeployment_ID = depUUID, VMDeployment_ResourceID = [],
           VMDeployment_Status = ''in-progress''\<rparr> \<and>
   tasks (fst (CreateVM s taskUUID depUUID createVMBody)) =
     tasks s @ [\<lparr>VMCreationTask_TaskID = taskUUID, VMCreationTask_DeploymentID = depUUID\<rparr>] \<and>
   goroutines (fst (CreateVM s taskUUID depUUID createVMBody)) =
     goroutines s @ [(depUUID, createVMBody)] \<and>
   vms (fst (CreateVM s taskUUID depUUID createVMBody)) = vms s \<and>
   updateChannel (fst (CreateVM s taskUUID depUUID createVMBody)) = updateChannel s"
  by (simp add: CreateVM_eq)

text \<open>
  C9, as the code has it. \<open>CreateVM\<close> validates nothing: for every request, whatever its
  name, CPU count and memory size, it returns a task and the nil error, never
  \<open>InvalidSpec\<close>.
\<close>

theorem CreateVM_never_fails:
  "snd (CreateVM s taskUUID depUUID createVMBody) =
     Inr \<lparr>VMCreationTask_TaskID = taskUUID, VMCreationTask_DeploymentID = depUUID\<rparr> \<and>
   snd (CreateVM s taskUUID depUUID createVMBody) \<noteq> Inl InvalidSpec"
  by (simp add: CreateVM_eq)

text \<open>
  C9, as the specification states it, fails for the request with the empty name:
  \<open>CreateVM\<close> returns a task for it.
\<close>

theorem CreateVM_accepts_empty_name:
  "CreateVMBody_Name nameless = [] \<and>
   snd (CreateVM NewVMService ''t1'' ''d1'' nameless) =
     Inr \<lparr>VMCreationTask_TaskID = ''t1'', VMCreationTask_DeploymentID = ''d1''\<rparr> \<and>
   snd (CreateVM NewVMService ''t1'' ''d1'' nameless) \<noteq> Inl InvalidSpec"
  by (simp add: CreateVM_eq nameless_def)

subsection \<open>Reconciliation\<close>

text \<open>
  C1. The service has one deployment, \<open>d1\<close>, in progress, and its goroutine is blocked
  sending the update that names \<open>d1\<close> and the resource \<open>v1\<close>. After the loop of
  \<open>UpdateDeploymentStatus\<close> has received that update the deployment has status
  \<open>created\<close>, but its resource identifier is still empty: the loop never reads
  \<open>update.ResourceID\<close>.
\<close>

theorem UpdateDeploymentStatus_drops_ResourceID:
  "run NewVMService [CallCreateVM ''t1'' ''d1'' web1, RunGoroutine ''d1'' web1 ''v1''] =
     Some pending_service \<and>
   update1 \<in> set (updateChannel pending_service) \<and>
   DeploymentUpdate_ResourceID update1 = ''v1'' \<and>
   deployments (UpdateDeploymentStatus pending_service [update1]) ''d1'' =
     Some \<lparr>VMDeployment_ID = ''d1'', VMDeployment_ResourceID = [],
           VMDeployment_Status = ''created''\<rparr>"
proof -
  have "deployments (UpdateDeploymentStatus pending_service [update1]) ''d1'' =
     Some \<lparr>VMDeployment_ID = ''d1'', VMDeployment_ResourceID = [],
           VMDeployment_Status = ''created''\<rparr>"
    by (simp add: pending_service_def update1_def)
  moreover have "update1 \<in> set (updateChannel pending_service)"
    by (simp add: pending_service_def)
  moreover have "DeploymentUpdate_ResourceID update1 = ''v1''" by (simp add: update1_def)
  ultimately show ?thesis using run_pending_service by simp
qed

subsection \<open>The invariant\<close>

lemma deployment_inv_init: "deployment_inv NewVMService (\<lambda>d. 0)"
  by (simp add: deployment_inv_def NewVMService_def)

lemma step_deployment_inv:
  assumes inv: "deployment_inv s c" and st: "step s e = Some s'"
  shows "deployment_inv s' (\<lambda>d. c d + count_list (received [e]) d)"
proof -
  let ?G = "\<lambda>s d. count_list (map fst (goroutines s)) d"
  let ?U = "\<lambda>s d. count_list (map DeploymentUpdate_DeploymentID (updateChannel s)) d"
  from inv have sum: "?G s d + ?U s d + c d = (if deployments s d = None then 0 else 1)" for d
    by (simp add: deployment_inv_def)
  from inv have dep: "deployments s d = Some x \<Longrightarrow>
      VMDeployment_ID x = d \<and>
      VMDeployment_Status x = (if c d = 0 then ''in-progress'' else ''created'')" for d x
    by (simp add: deployment_inv_def)
  show ?thesis
  proof (cases e)
    case (CallCreateVM t d0 b)
    with st have fresh: "deployments s d0 = None"
      and s': "s' = fst (CreateVM s t d0 b)"
      by (auto split: if_splits)
    from sum [of d0] fresh have z: "?G s d0 = 0" "?U s d0 = 0" "c d0 = 0" by simp_all
    have "?G s' d + ?U s' d + c d = (if deployments s' d = None then 0 else 1)" for d
      using sum [of d] z by (cases "d = d0") (auto simp: s' CreateVM_eq split: if_splits)
    moreover have "VMDeployment_ID x = d \<and>
        VMDeployment_Status x = (if c d = 0 then ''in-progress'' else ''created'')"
      if "deployments s' d = Some x" for d x
      using that dep [of d x] z by (auto simp: s' CreateVM_eq split: if_splits)
    ultimately show ?thesis by (simp add: deployment_inv_def CallCreateVM)
  next
    case (RunGoroutine d0 b v)
    with st have mem: "(d0, b) \<in> set (goroutines s)"
      and s': "s' = simulateVMCreation (s\<lparr>goroutines := remove1 (d0, b) (goroutines s)\<rparr>) v d0 b"
      by (auto split: if_splits)
    from count_list_map_mem [OF mem, of fst] have pos: "0 < ?G s d0" by simp
    have g: "?G s' d = ?G s d - (if d0 = d then 1 else 0)" for d
      using count_list_map_remove1 [OF mem, of fst d] by (simp add: s' simulateVMCreation_eq)
    have u: "?U s' d = ?U s d + (if d0 = d then 1 else 0)" for d
      by (simp add: s' simulateVMCreation_eq)
    have d: "deployments s' = deployments s" by (simp add: s' simulateVMCreation_eq)
    have "?G s' d + ?U s' d + c d = (if deployments s' d = None then 0 else 1)" for d
      using sum [of d] pos unfolding g u d by auto
    with dep show ?thesis by (simp add: deployment_inv_def RunGoroutine d)
  next
    case (Receive upd)
    let ?d0 = "DeploymentUpdate_DeploymentID upd"
    from Receive st have mem: "upd \<in> set (updateChannel s)"
      and s': "s' = UpdateDeploymentStatus (s\<lparr>updateChannel := remove1 upd (updateChannel s)\<rparr>) [upd]"
      by (auto split: if_splits)
    from count_list_map_mem [OF mem, of DeploymentUpdate_DeploymentID]
    have pos: "0 < ?U s ?d0" by simp
    with sum [of ?d0] obtain x0 where x0: "deployments s ?d0 = Some x0"
      by (cases "deployments s ?d0") auto
    from sum [of ?d0] pos x0 have z: "?G s ?d0 = 0" "?U s ?d0 = 1" "c ?d0 = 0" by simp_all
    have s'': "s' = s\<lparr>updateChannel := remove1 upd (updateChannel s),
                      deployments := (deployments s)(?d0 \<mapsto>
                        x0\<lparr>VMDeployment_Status := ''created''\<rparr>)\<rparr>"
      by (simp add: s' UpdateDeploymentStatus_single x0)
    have g: "?G s' d = ?G s d" for d by (simp add: s'')
    have u: "?U s' d = ?U s d - (if ?d0 = d then 1 else 0)" for d
      using count_list_map_remove1 [OF mem, of DeploymentUpdate_DeploymentID d]
      by (simp add: s'')
    have n: "(deployments s' d = None) = (deployments s d = None)" for d
      using x0 by (simp add: s'')
    have r: "count_list (received [e]) d = (if ?d0 = d then 1 else 0)" for d
      by (simp add: Receive)
    have "?G s' d + ?U s' d + (c d + count_list (received [e]) d) =
          (if deployments s' d = None then 0 else 1)" for d
      using sum [of d] z unfolding g u n r by auto
    moreover have "VMDeployment_ID x = d \<and>
        VMDeployment_Status x =
          (if c d + count_list (received [e]) d = 0 then ''in-progress'' else ''created'')"
      if "deployments s' d = Some x" for d x
      using that dep [of d x] dep [OF x0] z unfolding r
      by (auto simp: s'' split: if_splits)
    ultimately show ?thesis by (simp add: deployment_inv_def)
  qed
qed

lemma run_deployment_inv:
  "deployment_inv s c \<Longrightarrow> run s es = Some s' \<Longrightarrow>
   deployment_inv s' (\<lambda>d. c d + count_list (received es) d)"
proof (induction es arbitrary: s c)
  case Nil
  then show ?case by simp
next
  case (Cons e es)
  from Cons.prems(2) obtain s1 where s1: "step s e = Some s1" and r: "run s1 es = Some s'"
    by (auto split: option.splits)
  from Cons.prems(1) s1 have "deployment_inv s1 (\<lambda>d. c d + count_list (received [e]) d)"
    by (rule step_deployment_inv)
  from Cons.IH [OF this r]
  have "deployment_inv s' (\<lambda>d. c d + count_list (received [e]) d + count_list (received es) d)" .
  moreover have "count_list (received (e # es)) d =
      count_list (received [e]) d + count_list (received es) d" for d
    by (subst received_Cons) simp
  ultimately show ?case by (simp add: add.assoc)
qed

text \<open>
  C7. Take any run of the service from its initial state to a state \<open>s\<close>, any
  continuation of it to a state \<open>s'\<close>, and any deployment \<open>d\<close> stored in \<open>s\<close>. Then \<open>d\<close>
  is still stored in \<open>s'\<close>; in both states its status is \<open>created\<close> if the loop has
  received an update naming \<open>d\<close> and \<open>in-progress\<close> if it has not; once \<open>created\<close> it
  stays \<open>created\<close>; and no more than one update naming \<open>d\<close> is ever received.
\<close>

theorem deployment_state_machine:
  assumes "run NewVMService es = Some s" and "run s es' = Some s'"
    and "deployments s d = Some dep"
  shows "\<exists>dep'. deployments s' d = Some dep' \<and>
     VMDeployment_Status dep =
       (if d \<in> set (received es) then ''created'' else ''in-progress'') \<and>
     VMDeployment_Status dep' =
       (if d \<in> set (received (es @ es')) then ''created'' else ''in-progress'') \<and>
     (VMDeployment_Status dep = ''created'' \<longrightarrow> VMDeployment_Status dep' = ''created'') \<and>
     count_list (received (es @ es')) d \<le> 1"
proof -
  from run_deployment_inv [OF deployment_inv_init assms(1)]
  have i: "deployment_inv s (\<lambda>d. count_list (received es) d)" by simp
  from assms(1,2) have r: "run NewVMService (es @ es') = Some s'" by (simp add: run_append)
  from run_deployment_inv [OF deployment_inv_init r]
  have i': "deployment_inv s' (\<lambda>d. count_list (received (es @ es')) d)" by simp
  from assms(3) have "deployments s d \<noteq> None" by simp
  with assms(2) have "deployments s' d \<noteq> None" by (rule run_deployments_kept)
  then obtain dep' where dep': "deployments s' d = Some dep'" by blast
  from i assms(3) have st: "VMDeployment_Status dep =
      (if count_list (received es) d = 0 then ''in-progress'' else ''created'')"
    by (simp add: deployment_inv_def)
  from i' dep' have st': "VMDeployment_Status dep' =
      (if count_list (received (es @ es')) d = 0 then ''in-progress'' else ''created'')"
    by (simp add: deployment_inv_def)
  from i' have "count_list (map fst (goroutines s')) d +
      count_list (map DeploymentUpdate_DeploymentID (updateChannel s')) d +
      count_list (received (es @ es')) d = (if deployments s' d = None then 0 else 1)"
    by (simp add: deployment_inv_def)
  then have le: "count_list (received (es @ es')) d \<le> 1" by (simp split: if_splits)
  have m: "d \<in> set (received es) \<Longrightarrow> d \<in> set (received (es @ es'))"
    by (simp add: received_append)
  from st have a: "VMDeployment_Status dep =
      (if d \<in> set (received es) then ''created'' else ''in-progress'')"
    by (simp add: count_list_0_iff)
  from st' have b: "VMDeployment_Status dep' =
      (if d \<in> set (received (es @ es')) then ''created'' else ''in-progress'')"
    by (simp add: count_list_0_iff)
  from a b m have c: "VMDeployment_Status dep = ''created'' \<longrightarrow>
      VMDeployment_Status dep' = ''created''"
    by (simp split: if_splits)
  from dep' a b c le show ?thesis by blast
qed

theorem deployment_state_machine_witness:
  "run NewVMService [CallCreateVM ''t1'' ''d1'' web1, RunGoroutine ''d1'' web1 ''v1'',
      Receive update1] = Some reconciled_service \<and>
   run reconciled_service [CallCreateVM ''t2'' ''d2'' web1] =
     Some (fst (CreateVM reconciled_service ''t2'' ''d2'' web1)) \<and>
   deployments reconciled_service ''d1'' =
     Some \<lparr>VMDeployment_ID = ''d1'', VMDeployment_ResourceID = [],
           VMDeployment_Status = ''created''\<rparr> \<and>
   (\<exists>dep'. deployments (fst (CreateVM reconciled_service ''t2'' ''d2'' web1)) ''d1'' =
        Some dep' \<and>
      VMDeployment_Status dep' = ''created'')"
proof -
  let ?es = "[CallCreateVM ''t1'' ''d1'' web1, RunGoroutine ''d1'' web1 ''v1'', Receive update1]"
  have "run NewVMService
      ([CallCreateVM ''t1'' ''d1'' web1, RunGoroutine ''d1'' web1 ''v1''] @ [Receive update1]) =
      Some reconciled_service"
    by (simp only: run_append run_pending_service option.case run_reconciled_service)
  then have h1: "run NewVMService ?es = Some reconciled_service"
    by (simp only: append.simps)
  have h2: "run reconciled_service [CallCreateVM ''t2'' ''d2'' web1] =
      Some (fst (CreateVM reconciled_service ''t2'' ''d2'' web1))"
    by (simp add: reconciled_service_def)
  have h3: "deployments reconciled_service ''d1'' =
     Some \<lparr>VMDeployment_ID = ''d1'', VMDeployment_ResourceID = [],
           VMDeployment_Status = ''created''\<rparr>"
    by (simp add: reconciled_service_def)
  from deployment_state_machine [OF h1 h2 h3]
  have "\<exists>dep'. deployments (fst (CreateVM reconciled_service ''t2'' ''d2'' web1)) ''d1'' =
        Some dep' \<and>
      VMDeployment_Status dep' = ''created''"
    by auto
  with h1 h2 h3 show ?thesis by simp
qed

end
